theory Spec2Isabelle
  imports Complex_Main "HOL-Library.Word" "HOL-Library.Multiset" "HOL-Library.Product_Lexorder"
begin

unbundle bit_operations_syntax

section \<open>Addresses\<close>

text \<open>
  Modelled from the spec: the type \<open>IP\<close> with \<open>IPFromNetIP\<close>, \<open>UInt64\<close>,
  \<open>SetUInt64\<close> and \<open>String\<close> is declared in a file of the package that is not
  among the sources. Section 3 of the specification describes an address value as an
  unsigned 32-bit integer, a value type whose text form is dotted decimal. An \<open>IP\<close> is
  therefore a 32-bit word; \<open>UInt64\<close> widens it to Go's \<open>uint64\<close> and \<open>SetUInt64\<close>
  keeps the low 32 bits of its argument. A copy of an \<open>IP\<close> shares nothing with the
  original: \<open>SetUInt64\<close> on a loop variable changes that variable only. The sources do
  not show whether the declared type is such a value. Go's \<open>uint\<close> is taken at 64 bits.
\<close>

type_synonym IP = "32 word"

definition IPFromNetIP :: "32 word \<Rightarrow> IP" where
  "IPFromNetIP netIP = netIP"

definition UInt64 :: "IP \<Rightarrow> 64 word" where
  "UInt64 ip = ucast ip"

definition SetUInt64 :: "IP \<Rightarrow> 64 word \<Rightarrow> IP" where
  "SetUInt64 ip v = ucast v"

definition digit :: "nat \<Rightarrow> char" where
  "digit n = ''0123456789'' ! n"

definition octet :: "nat \<Rightarrow> string" where
  "octet n =
     (if n < 10 then [digit n]
      else if n < 100 then [digit (n div 10), digit (n mod 10)]
      else [digit (n div 100), digit (n div 10 mod 10), digit (n mod 10)])"

definition IP_String :: "IP \<Rightarrow> string" where
  "IP_String ip =
     octet (unat (drop_bit 24 ip) mod 256) @ ''.'' @
     octet (unat (drop_bit 16 ip) mod 256) @ ''.'' @
     octet (unat (drop_bit 8 ip) mod 256) @ ''.'' @
     octet (unat ip mod 256)"

text \<open>The address \<open>a.b.c.d\<close>, for writing inputs down.\<close>

definition ipv4 :: "nat \<Rightarrow> nat \<Rightarrow> nat \<Rightarrow> nat \<Rightarrow> IP" where
  "ipv4 a b c d = of_nat (((a * 256 + b) * 256 + c) * 256 + d)"

section \<open>Slices of addresses in a store\<close>

text \<open>
  A Go slice \<open>[]IP\<close> refers to a backing array that the caller and the callee share.
  The store maps the address of a backing array to its contents; addresses below
  \<open>next_free\<close> are allocated. A slice is the address of its array (the functions here
  only meet slices that span a whole array).
\<close>

record store =
  cells :: "nat \<Rightarrow> IP list"
  next_free :: nat

text \<open>\<open>make([]IP, n)\<close>: a fresh array of \<open>n\<close> zero values.\<close>

definition make_slice :: "store \<Rightarrow> nat \<Rightarrow> nat \<times> store" where
  "make_slice h n =
     (next_free h,
      h\<lparr>cells := (cells h)(next_free h := replicate n 0), next_free := Suc (next_free h)\<rparr>)"

text \<open>\<open>copy(dst, src)\<close>: the first \<open>min(len(dst), len(src))\<close> elements.\<close>

definition copy_slice :: "store \<Rightarrow> nat \<Rightarrow> nat \<Rightarrow> store" where
  "copy_slice h dst src =
     (let n = min (length (cells h dst)) (length (cells h src))
      in h\<lparr>cells := (cells h)(dst := take n (cells h src) @ drop n (cells h dst))\<rparr>)"

text \<open>
  \<open>sort.Sort(addressList(a))\<close> orders the array in place by \<open>Less\<close>, which compares
  \<open>UInt64\<close> values. The sort is the standard library's; any sorting permutation of plain
  address values is the same list.
\<close>

definition sort_Sort :: "store \<Rightarrow> nat \<Rightarrow> store" where
  "sort_Sort h a = h\<lparr>cells := (cells h)(a := sort_key UInt64 (cells h a))\<rparr>"

section \<open>Subnets and ranges\<close>

text \<open>
  \<open>Subnet.CIDR\<close> is text such as \<open>10.0.0.0/24\<close>, read by the standard library's
  \<open>net.ParseCIDR\<close>. The model keeps the text in its parsed form, an IPv4 address and a
  prefix length; a prefix length above 32 stands for text that \<open>net.ParseCIDR\<close> rejects.
  The resulting network has the address with its host bits cleared and a mask of
  \<open>ones\<close> leading ones out of \<open>bits = 32\<close>. \<open>checkError\<close> panics on an error.
\<close>

record cidr =
  addr :: "32 word"
  prefix_len :: nat

record IPNet =
  net_IP :: "32 word"
  Mask_Size :: "nat \<times> nat"

datatype panic = IndexOutOfRange | CheckError

definition ParseCIDR :: "cidr \<Rightarrow> unit + IPNet" where
  "ParseCIDR c =
     (if prefix_len c \<le> 32
      then Inr \<lparr>net_IP = addr c AND NOT (mask (32 - prefix_len c)),
                Mask_Size = (prefix_len c, 32)\<rparr>
      else Inl ())"

text \<open>Of \<open>Subnet\<close> only the two fields that the range computations read.\<close>

record Subnet =
  CIDR :: cidr
  InUseIPAddresses :: nat

record AddressRange =
  Start :: string
  startUint :: "64 word"
  End :: string
  endUint :: "64 word"
  Purpose :: "string list"
  NumAddresses :: "64 word"

text \<open>The four assignments to the range variable \<open>i\<close> before each \<open>append\<close>.\<close>

definition assign_range :: "IP \<Rightarrow> IP \<Rightarrow> AddressRange" where
  "assign_range startIP endIP =
     \<lparr>Start = IP_String startIP, startUint = UInt64 startIP,
      End = IP_String endIP, endUint = UInt64 endIP,
      Purpose = [],
      NumAddresses = 1 + UInt64 endIP - UInt64 startIP\<rparr>"

subsection \<open>subnetUnreservedIPRanges\<close>

text \<open>The loop over the sorted copy; it carries \<open>startIP\<close> and \<open>ranges\<close>.\<close>

fun unreserved_loop :: "IP \<Rightarrow> IP list \<Rightarrow> IP \<Rightarrow> AddressRange list \<Rightarrow> IP \<times> AddressRange list" where
  "unreserved_loop lastUsableIP [] startIP ranges = (startIP, ranges)"
| "unreserved_loop lastUsableIP (endIP # rest) startIP ranges =
     (let end = UInt64 endIP in
      if UInt64 endIP = UInt64 startIP then
        (if UInt64 endIP \<noteq> UInt64 lastUsableIP
         then unreserved_loop lastUsableIP rest (SetUInt64 startIP (end + 1)) ranges
         else unreserved_loop lastUsableIP rest startIP ranges)
      else if end = UInt64 lastUsableIP then
        unreserved_loop lastUsableIP rest startIP ranges
      else
        (let endIP = SetUInt64 endIP (end - 1)
         in unreserved_loop lastUsableIP rest (SetUInt64 startIP (end + 1))
              (ranges @ [assign_range startIP endIP])))"

text \<open>
  The statements after the sorted copy. They read the copy and change no array, so
  they are given the contents of \<open>ipAddresses\<close>.
\<close>

definition unreserved_after_sort :: "cidr \<Rightarrow> IP list \<Rightarrow> panic + AddressRange list" where
  "unreserved_after_sort subnet_CIDR ipAddresses =
     (case ParseCIDR subnet_CIDR of
        Inl err \<Rightarrow> Inl CheckError
      | Inr ipNet \<Rightarrow>
          (let startIP = IPFromNetIP (net_IP ipNet);
               startIP = SetUInt64 startIP (UInt64 startIP + 1);
               (ones, bits) = Mask_Size ipNet;
               set_bits = NOT (push_bit (bits - ones) (NOT (0 :: 64 word)));
               lastUsableIP = SetUInt64 0 ((UInt64 startIP OR set_bits) - 1);
               (startIP, ranges) = unreserved_loop lastUsableIP ipAddresses startIP []
           in if UInt64 startIP \<noteq> UInt64 lastUsableIP
              then Inr (ranges @ [assign_range startIP lastUsableIP])
              else Inr ranges))"

definition subnetUnreservedIPRanges :: "store \<Rightarrow> Subnet \<Rightarrow> (panic + AddressRange list) \<times> store" where
  "subnetUnreservedIPRanges h subnet =
     (let (ipAddresses, h) = make_slice h (length (cells h (InUseIPAddresses subnet)));
          h = copy_slice h ipAddresses (InUseIPAddresses subnet);
          h = sort_Sort h ipAddresses
      in (unreserved_after_sort (CIDR subnet) (cells h ipAddresses), h))"

subsection \<open>subnetReservedIPRanges\<close>

text \<open>The loop carries \<open>startIP\<close>, \<open>lastIP\<close> and \<open>ranges\<close>.\<close>

fun reserved_loop :: "IP list \<Rightarrow> IP \<Rightarrow> 64 word \<Rightarrow> AddressRange list \<Rightarrow> IP \<times> 64 word \<times> AddressRange list" where
  "reserved_loop [] startIP lastIP ranges = (startIP, lastIP, ranges)"
| "reserved_loop (thisIP # rest) startIP lastIP ranges =
     (let ip = UInt64 thisIP in
      if ip \<noteq> lastIP \<and> ip \<noteq> lastIP + 1 then
        (let thisIP = SetUInt64 thisIP lastIP
         in reserved_loop rest (SetUInt64 startIP ip) ip (ranges @ [assign_range startIP thisIP]))
      else reserved_loop rest startIP ip ranges)"

text \<open>
  The statements after the sorted copy. \<open>ipAddresses[0]\<close> panics on an empty slice,
  and so does \<open>ranges[len(ranges)-1]\<close> when the loop has appended nothing. After the
  loop \<open>thisIP\<close> is the last element.
\<close>

definition reserved_after_sort :: "IP list \<Rightarrow> panic + AddressRange list" where
  "reserved_after_sort ipAddresses =
     (case ipAddresses of
        [] \<Rightarrow> Inl IndexOutOfRange
      | first # _ \<Rightarrow>
          (let (startIP, lastIP, ranges) = reserved_loop ipAddresses first (UInt64 first) []
           in if ranges = [] then Inl IndexOutOfRange
              else if endUint (last ranges) \<noteq> lastIP
              then (let thisIP = SetUInt64 (last ipAddresses) lastIP
                    in Inr (ranges @ [assign_range startIP thisIP]))
              else Inr ranges))"

definition subnetReservedIPRanges :: "store \<Rightarrow> Subnet \<Rightarrow> (panic + AddressRange list) \<times> store" where
  "subnetReservedIPRanges h subnet =
     (let (ipAddresses, h) = make_slice h (length (cells h (InUseIPAddresses subnet)));
          h = copy_slice h ipAddresses (InUseIPAddresses subnet);
          h = sort_Sort h ipAddresses
      in (reserved_after_sort (cells h ipAddresses), h))"

subsection \<open>subnetStatistics\<close>

text \<open>
  \<open>Usage\<close> is a \<open>float32\<close> quotient. Go does not panic on a floating-point division by
  zero: \<open>0/0\<close> is NaN and \<open>x/0\<close> with \<open>x > 0\<close> is \<open>+Inf\<close>. A finite quotient is kept exact
  here; the rounding to \<open>float32\<close> is not modelled. \<open>UsageString\<close>, a formatting of
  \<open>Usage\<close>, is left out.
\<close>

datatype float32 = Finite rat | NaN | PosInf

definition float_div :: "64 word \<Rightarrow> 64 word \<Rightarrow> float32" where
  "float_div n d =
     (if d = 0 then (if n = 0 then NaN else PosInf)
      else Finite (of_nat (unat n) / of_nat (unat d)))"

record SubnetStats =
  NumAvailable :: "64 word"
  LargestAvailable :: "64 word"
  NumUnavailable :: "64 word"
  TotalAddresses :: "64 word"
  Usage :: float32
  Ranges :: "AddressRange list"

fun largest_loop :: "AddressRange list \<Rightarrow> 64 word \<Rightarrow> 64 word" where
  "largest_loop [] largest = largest"
| "largest_loop (addressRange # rest) largest =
     (if NumAddresses addressRange > largest
      then largest_loop rest (NumAddresses addressRange)
      else largest_loop rest largest)"

definition subnetStatistics :: "store \<Rightarrow> Subnet \<Rightarrow> bool \<Rightarrow> (panic + SubnetStats) \<times> store" where
  "subnetStatistics h subnet includeRanges =
     (case ParseCIDR (CIDR subnet) of
        Inl err \<Rightarrow> (Inl CheckError, h)
      | Inr ipNet \<Rightarrow>
          (let (ones, bits) = Mask_Size ipNet;
               total = push_bit (bits - ones) (1 :: 64 word) - 2;
               unavailable = of_nat (length (cells h (InUseIPAddresses subnet)));
               available = total - unavailable;
               usage = float_div unavailable total
           in case subnetUnreservedIPRanges h subnet of
                (Inl p, h) \<Rightarrow> (Inl p, h)
              | (Inr reserved, h) \<Rightarrow>
                  (Inr \<lparr>NumAvailable = available,
                        LargestAvailable = largest_loop reserved 0,
                        NumUnavailable = unavailable,
                        TotalAddresses = total,
                        Usage = usage,
                        Ranges = (if includeRanges then reserved else [])\<rparr>, h)))"

section \<open>Selecting the device decoder\<close>

text \<open>
  \<open>version.Number\<close> and its \<open>Compare\<close> belong to the library
  \<open>github.com/juju/version\<close>, outside the package: a version is a value of a
  linearly ordered type, \<open>Compare\<close> gives the sign of the comparison, and
  \<open>version.Zero\<close>, the zero value of the type, is a parameter. The table
  \<open>deviceDeserializationFuncs\<close> is a Go map: a list of entries with distinct keys, in the
  order in which \<open>range\<close> happens to enumerate them. Its single key \<open>twoDotOh\<close> is
  declared in a file that is not among the sources and is a parameter too. A decoder is a
  value of any type; looking up a key that the map lacks gives Go's \<open>nil\<close>, here
  \<open>None\<close>.
\<close>

datatype 'v api_error = UnsupportedVersionError 'v

definition Compare :: "'v::linorder \<Rightarrow> 'v \<Rightarrow> int" where
  "Compare v w = (if v < w then - 1 else if v = w then 0 else 1)"

definition deviceDeserializationFuncs :: "'v \<Rightarrow> 'f \<Rightarrow> ('v \<times> 'f) list" where
  "deviceDeserializationFuncs twoDotOh device_2_0 = [(twoDotOh, device_2_0)]"

text \<open>The loop over the keys of the table; it carries \<open>deserialisationVersion\<close>.\<close>

fun range_keys :: "'v::linorder \<Rightarrow> 'v list \<Rightarrow> 'v \<Rightarrow> 'v" where
  "range_keys controllerVersion [] deserialisationVersion = deserialisationVersion"
| "range_keys controllerVersion (v # vs) deserialisationVersion =
     (if Compare v deserialisationVersion > 0 \<and> Compare v controllerVersion \<le> 0
      then range_keys controllerVersion vs v
      else range_keys controllerVersion vs deserialisationVersion)"

definition getDeviceDeserializationFunc ::
  "'v::linorder \<Rightarrow> ('v \<times> 'f) list \<Rightarrow> 'v \<Rightarrow> 'v api_error + 'f option" where
  "getDeviceDeserializationFunc Zero funcs controllerVersion =
     (let deserialisationVersion = range_keys controllerVersion (map fst funcs) Zero
      in if deserialisationVersion = Zero
         then Inl (UnsupportedVersionError controllerVersion)
         else Inr (map_of funcs deserialisationVersion))"

section \<open>What the specification promises\<close>

text \<open>
  These definitions follow the words of the specification, not the code. The usable
  span of a subnet runs from the network address plus one to the broadcast address
  minus one. A range stands for the addresses from its start to its end. The
  unreserved ranges are promised to ascend by start, to be pairwise disjoint, to
  contain no address in use, and together with the addresses in use inside the span to
  make up the span.
\<close>

definition firstUsable :: "cidr \<Rightarrow> 64 word" where
  "firstUsable c = ucast (addr c AND NOT (mask (32 - prefix_len c))) + 1"

definition lastUsable :: "cidr \<Rightarrow> 64 word" where
  "lastUsable c = ucast (addr c OR mask (32 - prefix_len c)) - 1"

definition range_addresses :: "AddressRange \<Rightarrow> 64 word set" where
  "range_addresses r = {startUint r .. endUint r}"

definition ascending :: "AddressRange list \<Rightarrow> bool" where
  "ascending rs = sorted (map startUint rs)"

fun pairwise_disjoint :: "AddressRange list \<Rightarrow> bool" where
  "pairwise_disjoint [] = True"
| "pairwise_disjoint (r # rs) =
     (list_all (\<lambda>s. range_addresses r \<inter> range_addresses s = {}) rs \<and> pairwise_disjoint rs)"

definition unreserved_guarantee :: "cidr \<Rightarrow> IP list \<Rightarrow> AddressRange list \<Rightarrow> bool" where
  "unreserved_guarantee c inUse rs =
     (let span = {firstUsable c .. lastUsable c};
          used = UInt64 ` set inUse;
          free = (\<Union>r \<in> set rs. range_addresses r)
      in ascending rs \<and> pairwise_disjoint rs \<and>
         free \<inter> used = {} \<and> free \<union> (used \<inter> span) = span)"

section \<open>Inputs\<close>

text \<open>
  A store in which the caller holds one array, at address 0, with the addresses in use,
  and a subnet that refers to it.
\<close>

definition caller_store :: "IP list \<Rightarrow> store" where
  "caller_store inUse = \<lparr>cells = (\<lambda>_. [])(0 := inUse), next_free = 1\<rparr>"

definition subnet_of :: "IP \<Rightarrow> nat \<Rightarrow> Subnet" where
  "subnet_of a n = \<lparr>CIDR = \<lparr>addr = a, prefix_len = n\<rparr>, InUseIPAddresses = 0\<rparr>"

text \<open>
  A sorted list is one run when each address equals the one before it or follows it
  directly; \<open>lastIP\<close> is the address before the first.
\<close>

fun one_run :: "64 word \<Rightarrow> IP list \<Rightarrow> bool" where
  "one_run lastIP [] = True"
| "one_run lastIP (x # xs) =
     ((UInt64 x = lastIP \<or> UInt64 x = lastIP + 1) \<and> one_run (UInt64 x) xs)"

lemmas store_defs = make_slice_def copy_slice_def sort_Sort_def caller_store_def subnet_of_def

lemmas address_defs = ipv4_def IPFromNetIP_def UInt64_def SetUInt64_def
  assign_range_def IP_String_def octet_def digit_def drop_bit_eq_div

lemmas run_defs = subnetUnreservedIPRanges_def subnetReservedIPRanges_def
  unreserved_after_sort_def reserved_after_sort_def subnetStatistics_def ParseCIDR_def float_div_def Let_def mask_eq_exp_minus_1
  store_defs address_defs

section \<open>The store after a range computation\<close>

text \<open>
  Both range computations begin alike: a fresh array, a copy of the caller's addresses,
  a sort of the copy. When the caller's slice is allocated, the fresh array is another
  one, and the store differs from the old one in the fresh array only.
\<close>

lemma make_slice_fst: "fst (make_slice h n) = next_free h"
  by (simp add: make_slice_def)

lemma sorted_copy:
  assumes "src < next_free h"
  shows "sort_Sort (copy_slice (snd (make_slice h (length (cells h src)))) (next_free h) src)
           (next_free h) =
         h\<lparr>cells := (cells h)(next_free h := sort_key UInt64 (cells h src)),
           next_free := Suc (next_free h)\<rparr>"
  using assms by (simp add: make_slice_def copy_slice_def sort_Sort_def)

lemma unreserved_run:
  assumes "InUseIPAddresses subnet < next_free h"
  shows "subnetUnreservedIPRanges h subnet =
         (unreserved_after_sort (CIDR subnet) (sort_key UInt64 (cells h (InUseIPAddresses subnet))),
          h\<lparr>cells := (cells h)(next_free h := sort_key UInt64 (cells h (InUseIPAddresses subnet))),
            next_free := Suc (next_free h)\<rparr>)"
  by (simp add: subnetUnreservedIPRanges_def Let_def split_beta make_slice_fst
        sorted_copy [OF assms])

lemma reserved_run:
  assumes "InUseIPAddresses subnet < next_free h"
  shows "subnetReservedIPRanges h subnet =
         (reserved_after_sort (sort_key UInt64 (cells h (InUseIPAddresses subnet))),
          h\<lparr>cells := (cells h)(next_free h := sort_key UInt64 (cells h (InUseIPAddresses subnet))),
            next_free := Suc (next_free h)\<rparr>)"
  by (simp add: subnetReservedIPRanges_def Let_def split_beta make_slice_fst
        sorted_copy [OF assms])

lemma unreserved_returns:
  assumes "prefix_len (CIDR subnet) \<le> 32"
  shows "\<exists>rs h'. subnetUnreservedIPRanges h subnet = (Inr rs, h')"
  using assms
  by (simp add: subnetUnreservedIPRanges_def unreserved_after_sort_def ParseCIDR_def
        Let_def split_beta)

section \<open>Statistics\<close>





section \<open>Repeated calls\<close>

text \<open>
  Claim C9. Calling the unreserved-range computation twice, or the reserved-range
  computation twice, on the same subnet yields the same output both times (the same
  ranges, or the same panic), and neither call changes an array that was allocated
  before it, in particular not the caller's in-use addresses. An address is a value
  here, as the specification describes it; the statement says nothing of an address
  type whose copies share storage.
\<close>

theorem range_computations_repeatable:
  assumes "InUseIPAddresses subnet < next_free h"
  shows "(let (out1, h1) = subnetUnreservedIPRanges h subnet;
              (out2, h2) = subnetUnreservedIPRanges h1 subnet
          in out2 = out1 \<and>
             (\<forall>a < next_free h. cells h1 a = cells h a \<and> cells h2 a = cells h a)) \<and>
         (let (out1, h1) = subnetReservedIPRanges h subnet;
              (out2, h2) = subnetReservedIPRanges h1 subnet
          in out2 = out1 \<and>
             (\<forall>a < next_free h. cells h1 a = cells h a \<and> cells h2 a = cells h a))"
proof -
  let ?src = "InUseIPAddresses subnet"
  let ?h' = "h\<lparr>cells := (cells h)(next_free h := sort_key UInt64 (cells h ?src)),
           next_free := Suc (next_free h)\<rparr>"
  have lt: "?src < next_free ?h'" using assms by simp
  have same: "cells ?h' ?src = cells h ?src" using assms by simp
  have u: "(let (out1, h1) = subnetUnreservedIPRanges h subnet;
              (out2, h2) = subnetUnreservedIPRanges h1 subnet
          in out2 = out1 \<and>
             (\<forall>a < next_free h. cells h1 a = cells h a \<and> cells h2 a = cells h a))"
    using assms by (simp add: unreserved_run [OF assms] unreserved_run [OF lt] same)
  have r: "(let (out1, h1) = subnetReservedIPRanges h subnet;
              (out2, h2) = subnetReservedIPRanges h1 subnet
          in out2 = out1 \<and>
             (\<forall>a < next_free h. cells h1 a = cells h a \<and> cells h2 a = cells h a))"
    using assms by (simp add: reserved_run [OF assms] reserved_run [OF lt] same)
  from u r show ?thesis ..
qed

theorem range_computations_repeatable_witness:
  "InUseIPAddresses (subnet_of (ipv4 10 0 0 0) 28) < next_free (caller_store [ipv4 10 0 0 9, ipv4 10 0 0 3]) \<and>
   (let (out1, h1) = subnetUnreservedIPRanges (caller_store [ipv4 10 0 0 9, ipv4 10 0 0 3]) (subnet_of (ipv4 10 0 0 0) 28);
        (out2, h2) = subnetUnreservedIPRanges h1 (subnet_of (ipv4 10 0 0 0) 28)
    in out2 = out1 \<and> cells h2 0 = [ipv4 10 0 0 9, ipv4 10 0 0 3]) \<and>
   (let (out1, h1) = subnetReservedIPRanges (caller_store [ipv4 10 0 0 9, ipv4 10 0 0 3]) (subnet_of (ipv4 10 0 0 0) 28);
        (out2, h2) = subnetReservedIPRanges h1 (subnet_of (ipv4 10 0 0 0) 28)
    in out2 = out1 \<and> cells h2 0 = [ipv4 10 0 0 9, ipv4 10 0 0 3])"
  using range_computations_repeatable [of "subnet_of (ipv4 10 0 0 0) 28" "caller_store [ipv4 10 0 0 9, ipv4 10 0 0 3]"]
  by (simp add: subnet_of_def caller_store_def split_beta Let_def)

section \<open>The decoder for a controller version\<close>

lemma Compare_pos: "(Compare v w > 0) = (w < v)"
  by (auto simp: Compare_def)

lemma Compare_nonpos: "(Compare v w \<le> 0) = (v \<le> w)"
  by (auto simp: Compare_def)

lemma range_keys_step:
  "range_keys cv (v # vs) dv =
     (if dv < v \<and> v \<le> cv then range_keys cv vs v else range_keys cv vs dv)"
  by (simp add: Compare_pos Compare_nonpos)

lemma range_keys_Max:
  "range_keys cv vs dv = Max (insert dv {v \<in> set vs. v \<le> cv})"
proof (induction vs arbitrary: dv)
  case Nil
  show ?case by simp
next
  case (Cons v vs)
  let ?S = "{w \<in> set vs. w \<le> cv}"
  have fin: "finite ?S" by simp
  show ?case
  proof (cases "dv < v \<and> v \<le> cv")
    case True
    have split: "{w \<in> set (v # vs). w \<le> cv} = insert v ?S"
      using True by auto
    have "v \<le> Max (insert v ?S)"
      by (rule Max_ge) (use fin in auto)
    with True have "dv \<le> Max (insert v ?S)"
      by (auto intro: order_trans less_imp_le)
    then have "max dv (Max (insert v ?S)) = Max (insert v ?S)"
      by (rule max.absorb2)
    then have absorb: "Max (insert dv (insert v ?S)) = Max (insert v ?S)"
      using fin by simp
    have "range_keys cv (v # vs) dv = range_keys cv vs v"
      using True by (simp add: range_keys_step del: range_keys.simps)
    also have "\<dots> = Max (insert v ?S)"
      by (rule Cons.IH)
    also have "\<dots> = Max (insert dv {w \<in> set (v # vs). w \<le> cv})"
      by (simp only: split absorb)
    finally show ?thesis .
  next
    case False
    have same: "Max (insert dv {w \<in> set (v # vs). w \<le> cv}) = Max (insert dv ?S)"
    proof (cases "v \<le> cv")
      case True
      with False have le: "v \<le> dv" by auto
      from True have split: "{w \<in> set (v # vs). w \<le> cv} = insert v ?S" by auto
      have "Max (insert v (insert dv ?S)) = max v (Max (insert dv ?S))"
        using fin by simp
      moreover have "dv \<le> Max (insert dv ?S)"
        by (rule Max_ge) (use fin in auto)
      with le have "v \<le> Max (insert dv ?S)"
        by (rule order_trans)
      ultimately have "Max (insert v (insert dv ?S)) = Max (insert dv ?S)"
        by (simp only: max.absorb2)
      then show ?thesis
        by (simp only: split insert_commute [of dv v])
    next
      case False
      then have "{w \<in> set (v # vs). w \<le> cv} = ?S" by auto
      then show ?thesis by simp
    qed
    have "range_keys cv (v # vs) dv = range_keys cv vs dv"
      using False by (auto simp add: range_keys_step simp del: range_keys.simps)
    also have "\<dots> = Max (insert dv ?S)"
      by (rule Cons.IH)
    finally show ?thesis
      by (simp only: same)
  qed
qed

text \<open>
  Claim C10. For a table with distinct keys that are all above \<open>version.Zero\<close> (the
  table of the package has the single key \<open>twoDotOh\<close>) and for every controller
  version: if some key is at most the controller version, the selection returns the
  decoder registered under the greatest such key; it returns the unsupported-version
  error exactly when no key is at most the controller version; and the result is the
  same for every enumeration order of the table.
\<close>

theorem getDeviceDeserializationFunc_greatest_key:
  assumes dist: "distinct (map fst funcs)"
      and pos: "\<forall>k \<in> fst ` set funcs. Zero < k"
  shows "((\<exists>k \<in> fst ` set funcs. k \<le> cv) \<longrightarrow>
            (\<exists>f. (Max {k \<in> fst ` set funcs. k \<le> cv}, f) \<in> set funcs \<and>
                 getDeviceDeserializationFunc Zero funcs cv = Inr (Some f))) \<and>
         ((getDeviceDeserializationFunc Zero funcs cv = Inl (UnsupportedVersionError cv))
            = (\<not> (\<exists>k \<in> fst ` set funcs. k \<le> cv))) \<and>
         (\<forall>funcs'. distinct (map fst funcs') \<and> set funcs' = set funcs \<longrightarrow>
            getDeviceDeserializationFunc Zero funcs' cv = getDeviceDeserializationFunc Zero funcs cv)"
proof -
  have key: "\<And>fs. distinct (map fst fs) \<Longrightarrow> set fs = set funcs \<Longrightarrow>
     getDeviceDeserializationFunc Zero fs cv =
       (if \<exists>k \<in> fst ` set funcs. k \<le> cv
        then Inr (map_of funcs (Max {k \<in> fst ` set funcs. k \<le> cv}))
        else Inl (UnsupportedVersionError cv))"
  proof -
    fix fs :: "('a \<times> 'b) list"
    assume d: "distinct (map fst fs)" and s: "set fs = set funcs"
    let ?S = "{k \<in> fst ` set funcs. k \<le> cv}"
    have fin: "finite ?S" by simp
    have S: "{v \<in> set (map fst fs). v \<le> cv} = ?S" using s by auto
    have mo: "map_of fs = map_of funcs"
      using d dist s by (auto intro!: map_of_inject_set [THEN iffD2])
    show "getDeviceDeserializationFunc Zero fs cv =
       (if \<exists>k \<in> fst ` set funcs. k \<le> cv
        then Inr (map_of funcs (Max ?S))
        else Inl (UnsupportedVersionError cv))"
    proof (cases "?S = {}")
      case True
      then have no: "\<not> (\<exists>k \<in> fst ` set funcs. k \<le> cv)" by auto
      have "Max (insert Zero ?S) = Zero" by (subst True) simp
      with no show ?thesis
        by (simp add: getDeviceDeserializationFunc_def range_keys_Max S del: set_map)
    next
      case False
      then have ex: "\<exists>k \<in> fst ` set funcs. k \<le> cv" by auto
      have "Max ?S \<in> ?S" using fin False by (rule Max_in)
      then have gt: "Zero < Max ?S" using pos by auto
      then have "Max (insert Zero ?S) = Max ?S"
        using fin False by (simp add: max.absorb2 less_imp_le)
      with gt ex show ?thesis
        by (simp add: getDeviceDeserializationFunc_def range_keys_Max S mo del: set_map)
    qed
  qed
  let ?S = "{k \<in> fst ` set funcs. k \<le> cv}"
  have a: "(\<exists>k \<in> fst ` set funcs. k \<le> cv) \<longrightarrow>
            (\<exists>f. (Max ?S, f) \<in> set funcs \<and>
                 getDeviceDeserializationFunc Zero funcs cv = Inr (Some f))"
  proof
    assume ex: "\<exists>k \<in> fst ` set funcs. k \<le> cv"
    then have ne: "?S \<noteq> {}" by auto
    have "Max ?S \<in> ?S" using ne by (intro Max_in) simp
    then obtain f where f: "(Max ?S, f) \<in> set funcs" by auto
    then have "map_of funcs (Max ?S) = Some f" using dist by simp
    with f ex key [OF dist refl] show "\<exists>f. (Max ?S, f) \<in> set funcs \<and>
                 getDeviceDeserializationFunc Zero funcs cv = Inr (Some f)" by auto
  qed
  have b: "(getDeviceDeserializationFunc Zero funcs cv = Inl (UnsupportedVersionError cv))
            = (\<not> (\<exists>k \<in> fst ` set funcs. k \<le> cv))"
    using key [OF dist refl] by auto
  have c: "\<forall>funcs'. distinct (map fst funcs') \<and> set funcs' = set funcs \<longrightarrow>
            getDeviceDeserializationFunc Zero funcs' cv = getDeviceDeserializationFunc Zero funcs cv"
    using key key [OF dist refl] by simp
  from a b c show ?thesis by blast
qed

theorem getDeviceDeserializationFunc_greatest_key_witness:
 "distinct (map fst (deviceDeserializationFuncs (2::nat, 0::nat) ''device_2_0'')) \<and>
  (0::nat, 0::nat) < (2, 0) \<and>
  getDeviceDeserializationFunc (0, 0) (deviceDeserializationFuncs (2::nat, 0::nat) ''device_2_0'') (2, 1)
     = Inr (Some ''device_2_0'') \<and>
  getDeviceDeserializationFunc (0, 0) (deviceDeserializationFuncs (2::nat, 0::nat) ''device_2_0'') (1, 9)
     = Inl (UnsupportedVersionError (1, 9))"
  using getDeviceDeserializationFunc_greatest_key [of "deviceDeserializationFuncs (2::nat, 0::nat) ''device_2_0''" "(0, 0)" "(2, 1)"]
        getDeviceDeserializationFunc_greatest_key [of "deviceDeserializationFuncs (2::nat, 0::nat) ''device_2_0''" "(0, 0)" "(1, 9)"]
  by (simp add: deviceDeserializationFuncs_def)

section \<open>Unreserved ranges\<close>

text \<open>
  Claim C1. The unreserved ranges are promised to be pairwise disjoint, ascending, and
  together with the addresses in use to make up the usable span exactly. For the subnet
  10.0.0.0/29 (usable span 10.0.0.1 to 10.0.0.6) with 10.0.0.5 in use, the computation
  returns the single range 10.0.0.1 to 10.0.0.4: when the loop ends, the cursor stands
  on the last usable address, and the closing test takes that for "nothing left". The
  free address 10.0.0.6 is in no range, so the promise fails for this result.
\<close>

theorem unreserved_ranges_miss_last_usable_address:
  "fst (subnetUnreservedIPRanges (caller_store [ipv4 10 0 0 5]) (subnet_of (ipv4 10 0 0 0) 29)) =
     Inr [\<lparr>Start = ''10.0.0.1'', startUint = 167772161, End = ''10.0.0.4'',
            endUint = 167772164, Purpose = [], NumAddresses = 4\<rparr>] \<and>
   \<not> unreserved_guarantee (CIDR (subnet_of (ipv4 10 0 0 0) 29)) [ipv4 10 0 0 5]
       [\<lparr>Start = ''10.0.0.1'', startUint = 167772161, End = ''10.0.0.4'',
            endUint = 167772164, Purpose = [], NumAddresses = 4\<rparr>]"
proof -
  let ?r = "\<lparr>Start = ''10.0.0.1'', startUint = 167772161, End = ''10.0.0.4'',
            endUint = 167772164, Purpose = [], NumAddresses = 4\<rparr>"
  let ?c = "CIDR (subnet_of (ipv4 10 0 0 0) 29)"
  have run: "fst (subnetUnreservedIPRanges (caller_store [ipv4 10 0 0 5]) (subnet_of (ipv4 10 0 0 0) 29)) = Inr [?r]"
    by (simp add: run_defs)
  have first: "firstUsable ?c = 167772161"
    by (simp add: firstUsable_def subnet_of_def ipv4_def mask_eq_exp_minus_1)
  have last: "lastUsable ?c = 167772166"
    by (simp add: lastUsable_def subnet_of_def ipv4_def mask_eq_exp_minus_1)
  have used: "UInt64 ` set [ipv4 10 0 0 5] = {167772165}"
    by (simp add: UInt64_def ipv4_def)
  have free: "(\<Union>r \<in> set [?r]. range_addresses r) = {167772161 .. 167772164}"
    by (simp add: range_addresses_def)
  have inspan: "(167772166 :: 64 word) \<in> {167772161 .. 167772166}"
    by simp
  have notfree: "(167772166 :: 64 word) \<notin> {167772161 .. 167772164} \<union> ({167772165} \<inter> {167772161 .. 167772166})"
    by simp
  have "{167772161 .. 167772164} \<union> ({167772165} \<inter> {167772161 .. 167772166}) \<noteq> {167772161 .. 167772166 :: 64 word}"
    using inspan notfree by blast
  then have "\<not> unreserved_guarantee ?c [ipv4 10 0 0 5] [?r]"
    unfolding unreserved_guarantee_def Let_def first last used free by blast
  with run show ?thesis by blast
qed

text \<open>
  Claim C2. For the subnet 10.0.0.0/30 with 10.0.0.1 in use, the specification expects
  the one range 10.0.0.2 to 10.0.0.2 and a largest available block of 1. The
  computation returns no range at all, and the statistics are total 2, unavailable 1,
  available 1, largest available 0, usage 1/2.
\<close>

theorem boundary_scenario_slash30:
  "fst (subnetUnreservedIPRanges (caller_store [ipv4 10 0 0 1]) (subnet_of (ipv4 10 0 0 0) 30)) = Inr [] \<and>
   fst (subnetStatistics (caller_store [ipv4 10 0 0 1]) (subnet_of (ipv4 10 0 0 0) 30) False) =
     Inr \<lparr>NumAvailable = 1, LargestAvailable = 0, NumUnavailable = 1,
          TotalAddresses = 2, Usage = Finite (1 / 2), Ranges = []\<rparr>"
  by (simp add: run_defs)

section \<open>Reserved ranges\<close>

text \<open>
  Claim C3. With no address in use, the reserved-range computation does not return an
  error: for every subnet it indexes the first element of the empty sorted copy, which
  is a run-time panic.
\<close>

theorem reserved_ranges_empty_input_panics:
  assumes "cells h (InUseIPAddresses subnet) = []"
  shows "fst (subnetReservedIPRanges h subnet) = Inl IndexOutOfRange"
  using assms
  by (simp add: subnetReservedIPRanges_def reserved_after_sort_def make_slice_def
        copy_slice_def sort_Sort_def Let_def)

theorem reserved_ranges_empty_input_panics_witness:
  "cells (caller_store []) (InUseIPAddresses (subnet_of (ipv4 192 168 1 0) 24)) = [] \<and>
   fst (subnetReservedIPRanges (caller_store []) (subnet_of (ipv4 192 168 1 0) 24)) =
     Inl IndexOutOfRange"
  using reserved_ranges_empty_input_panics
    [of "caller_store []" "subnet_of (ipv4 192 168 1 0) 24"]
  by (simp add: caller_store_def subnet_of_def)

lemma reserved_loop_one_run:
  "one_run lastIP xs \<Longrightarrow> snd (snd (reserved_loop xs startIP lastIP ranges)) = ranges"
  by (induction xs arbitrary: lastIP) (auto simp: Let_def)

text \<open>
  Claim C4. For a non-empty in-use set the reserved ranges are promised to be the runs
  of the set. Whenever the addresses in use form a single run (one address, or
  10.0.0.3 to 10.0.0.5), the loop appends nothing, and the test that follows it indexes
  the last element of the empty list \<open>ranges\<close>: a run-time panic, and no range is
  returned.
\<close>

theorem reserved_ranges_single_run_panics:
  assumes "InUseIPAddresses subnet < next_free h"
      and "one_run (UInt64 (hd (sort_key UInt64 (cells h (InUseIPAddresses subnet)))))
             (sort_key UInt64 (cells h (InUseIPAddresses subnet)))"
  shows "fst (subnetReservedIPRanges h subnet) = Inl IndexOutOfRange"
proof (cases "sort_key UInt64 (cells h (InUseIPAddresses subnet))")
  case Nil
  then show ?thesis
    by (simp add: reserved_run [OF assms(1)] reserved_after_sort_def)
next
  case (Cons first rest)
  have "snd (snd (reserved_loop (first # rest) first (UInt64 first) [])) = []"
    using assms(2) unfolding Cons list.sel by (rule reserved_loop_one_run)
  then show ?thesis
    by (simp add: reserved_run [OF assms(1)] reserved_after_sort_def Cons split_beta Let_def
          del: reserved_loop.simps)
qed

theorem reserved_ranges_single_run_panics_witness:
  "InUseIPAddresses (subnet_of (ipv4 10 0 0 0) 28) <
     next_free (caller_store [ipv4 10 0 0 5, ipv4 10 0 0 3, ipv4 10 0 0 4]) \<and>
   one_run (UInt64 (hd (sort_key UInt64 [ipv4 10 0 0 5, ipv4 10 0 0 3, ipv4 10 0 0 4])))
      (sort_key UInt64 [ipv4 10 0 0 5, ipv4 10 0 0 3, ipv4 10 0 0 4]) \<and>
   fst (subnetReservedIPRanges (caller_store [ipv4 10 0 0 5, ipv4 10 0 0 3, ipv4 10 0 0 4])
          (subnet_of (ipv4 10 0 0 0) 28)) = Inl IndexOutOfRange \<and>
   fst (subnetReservedIPRanges (caller_store [ipv4 10 0 0 3]) (subnet_of (ipv4 10 0 0 0) 28)) =
     Inl IndexOutOfRange"
  using reserved_ranges_single_run_panics
      [of "subnet_of (ipv4 10 0 0 0) 28" "caller_store [ipv4 10 0 0 5, ipv4 10 0 0 3, ipv4 10 0 0 4]"]
    reserved_ranges_single_run_panics
      [of "subnet_of (ipv4 10 0 0 0) 28" "caller_store [ipv4 10 0 0 3]"]
  by (simp add: caller_store_def subnet_of_def ipv4_def UInt64_def)

section \<open>Statistics on the edge\<close>

text \<open>
  Claim C6. The largest available block is promised to be at most the number of
  available addresses. For the subnet 10.0.0.0/30 with its last usable address
  10.0.0.2 in use, the unreserved range runs from 10.0.0.1 to 10.0.0.2 and contains the
  address in use: the largest available block is 2 and the number available is 1.
\<close>

theorem largest_available_exceeds_available:
  "fst (subnetStatistics (caller_store [ipv4 10 0 0 2]) (subnet_of (ipv4 10 0 0 0) 30) False) =
     Inr \<lparr>NumAvailable = 1, LargestAvailable = 2, NumUnavailable = 1,
          TotalAddresses = 2, Usage = Finite (1 / 2), Ranges = []\<rparr>"
  by (simp add: run_defs)

text \<open>
  Claim C7. For prefix lengths 31 and 32 the specification expects an empty range list
  and zero-valued statistics. With nothing in use, the subnet 10.0.0.0/31 gets one
  range from 10.0.0.1 down to 10.0.0.0 with 0 addresses, and a usage of 0/0, which is
  NaN; for 10.0.0.0/32 the total \<open>(1 << 0) - 2\<close> wraps around to the largest
  \<open>uint\<close>. Neither computation panics.
\<close>

theorem degenerate_prefix_statistics:
  "fst (subnetUnreservedIPRanges (caller_store []) (subnet_of (ipv4 10 0 0 0) 31)) =
     Inr [\<lparr>Start = ''10.0.0.1'', startUint = 167772161, End = ''10.0.0.0'',
            endUint = 167772160, Purpose = [], NumAddresses = 0\<rparr>] \<and>
   fst (subnetStatistics (caller_store []) (subnet_of (ipv4 10 0 0 0) 31) False) =
     Inr \<lparr>NumAvailable = 0, LargestAvailable = 0, NumUnavailable = 0,
          TotalAddresses = 0, Usage = NaN, Ranges = []\<rparr> \<and>
   fst (subnetStatistics (caller_store []) (subnet_of (ipv4 10 0 0 0) 32) False) =
     Inr \<lparr>NumAvailable = 18446744073709551615, LargestAvailable = 0, NumUnavailable = 0,
          TotalAddresses = 18446744073709551615, Usage = Finite 0, Ranges = []\<rparr>"
  by (simp add: run_defs)

section \<open>Duplicates among the addresses in use\<close>

text \<open>
  Claim C8, as stated: a list with duplicates gives the same result as its
  deduplicated equivalent, for each of the three computations. For the subnet
  10.0.0.0/28 with 10.0.0.3 in use twice, the unreserved ranges and the statistics both
  differ from those for 10.0.0.3 in use once.
\<close>

theorem duplicates_change_unreserved_and_statistics:
  "fst (subnetUnreservedIPRanges (caller_store [ipv4 10 0 0 3, ipv4 10 0 0 3]) (subnet_of (ipv4 10 0 0 0) 28)) \<noteq>
   fst (subnetUnreservedIPRanges (caller_store (remdups [ipv4 10 0 0 3, ipv4 10 0 0 3])) (subnet_of (ipv4 10 0 0 0) 28)) \<and>
   fst (subnetStatistics (caller_store [ipv4 10 0 0 3, ipv4 10 0 0 3]) (subnet_of (ipv4 10 0 0 0) 28) False) \<noteq>
   fst (subnetStatistics (caller_store (remdups [ipv4 10 0 0 3, ipv4 10 0 0 3])) (subnet_of (ipv4 10 0 0 0) 28) False)"
  by (simp add: run_defs)

lemma UInt64_le: "(UInt64 a \<le> UInt64 b) = (a \<le> b)"
  by (simp add: UInt64_def word_le_def uint_up_ucast is_up)

lemma sort_key_UInt64: "sort_key UInt64 xs = sort xs"
proof -
  have "sorted (map UInt64 (sort_key UInt64 xs))"
    by (rule sorted_sort_key)
  then have s: "sorted (sort_key UInt64 xs)"
    by (simp add: sorted_map UInt64_le)
  have m: "mset (sort_key UInt64 xs) = mset xs"
    by simp
  show ?thesis
    by (rule properties_for_sort [OF m s, symmetric])
qed

lemma distinct_remdups_adj_sorted: "sorted ys \<Longrightarrow> distinct (remdups_adj ys)"
  by (induction ys rule: remdups_adj.induct) auto

lemma sort_remdups: "sort (remdups xs) = remdups_adj (sort xs)"
  by (rule sorted_distinct_set_unique) (simp_all add: distinct_remdups_adj_sorted)

lemma reserved_loop_repeat:
  "reserved_loop (x # x # xs) startIP lastIP ranges = reserved_loop (x # xs) startIP lastIP ranges"
  by (simp add: Let_def)

lemma reserved_loop_step:
  "\<exists>s' l' r'. \<forall>zs. reserved_loop (x # zs) startIP lastIP ranges = reserved_loop zs s' l' r'"
proof (cases "UInt64 x \<noteq> lastIP \<and> UInt64 x \<noteq> lastIP + 1")
  case True
  then have "\<forall>zs. reserved_loop (x # zs) startIP lastIP ranges =
      reserved_loop zs (SetUInt64 startIP (UInt64 x)) (UInt64 x)
        (ranges @ [assign_range startIP (SetUInt64 x lastIP)])"
    by (simp add: Let_def)
  then show ?thesis by blast
next
  case False
  then have "\<forall>zs. reserved_loop (x # zs) startIP lastIP ranges =
      reserved_loop zs startIP (UInt64 x) ranges"
    by (auto simp: Let_def)
  then show ?thesis by blast
qed

lemma reserved_loop_remdups_adj:
  "reserved_loop (remdups_adj ys) startIP lastIP ranges = reserved_loop ys startIP lastIP ranges"
proof (induction ys arbitrary: startIP lastIP ranges rule: remdups_adj.induct)
  case 1
  show ?case by simp
next
  case (2 x)
  show ?case by simp
next
  case (3 x y xs)
  show ?case
  proof (cases "x = y")
    case True
    have "reserved_loop (remdups_adj (x # y # xs)) startIP lastIP ranges =
          reserved_loop (remdups_adj (x # xs)) startIP lastIP ranges"
      using True by simp
    also have "\<dots> = reserved_loop (x # xs) startIP lastIP ranges"
      using True by (rule "3.IH"(1))
    also have "\<dots> = reserved_loop (x # y # xs) startIP lastIP ranges"
      unfolding True by (rule reserved_loop_repeat [symmetric])
    finally show ?thesis .
  next
    case False
    obtain s' l' r' where step:
      "\<And>zs. reserved_loop (x # zs) startIP lastIP ranges = reserved_loop zs s' l' r'"
      using reserved_loop_step by blast
    have "reserved_loop (remdups_adj (x # y # xs)) startIP lastIP ranges =
          reserved_loop (x # remdups_adj (y # xs)) startIP lastIP ranges"
      using False by simp
    also have "\<dots> = reserved_loop (remdups_adj (y # xs)) s' l' r'"
      by (rule step)
    also have "\<dots> = reserved_loop (y # xs) s' l' r'"
      using False by (rule "3.IH"(2))
    also have "\<dots> = reserved_loop (x # y # xs) startIP lastIP ranges"
      by (rule step [symmetric])
    finally show ?thesis .
  qed
qed

lemma reserved_after_sort_remdups_adj:
  "reserved_after_sort (remdups_adj ys) = reserved_after_sort ys"
proof (cases ys)
  case Nil
  then show ?thesis by simp
next
  case (Cons y ys')
  then obtain zs where zs: "remdups_adj ys = y # zs"
    by (metis remdups_adj_Cons_alt)
  have loop: "reserved_loop (y # zs) = reserved_loop ys"
    using reserved_loop_remdups_adj [of ys] zs by (simp add: fun_eq_iff)
  have lst: "last (y # zs) = last ys"
    using last_remdups_adj [of ys] zs by simp
  show ?thesis
    unfolding reserved_after_sort_def zs list.case loop lst
    by (simp add: Cons)
qed

text \<open>
  Claim C8, amended. For every subnet and every list of addresses in use, the
  reserved-range computation returns on the list what it returns on its deduplicated
  equivalent (the same ranges, or the same panic). The statistics take
  \<open>NumUnavailable\<close> to be the number of entries of the list, so an address that
  occurs twice counts twice.
\<close>

theorem duplicates_keep_reserved_ranges:
  assumes "InUseIPAddresses subnet < next_free h"
      and "InUseIPAddresses subnet < next_free h'"
      and "cells h' (InUseIPAddresses subnet) = remdups (cells h (InUseIPAddresses subnet))"
  shows "fst (subnetReservedIPRanges h subnet) = fst (subnetReservedIPRanges h' subnet) \<and>
         (prefix_len (CIDR subnet) \<le> 32 \<longrightarrow>
            (\<exists>s. fst (subnetStatistics h subnet includeRanges) = Inr s \<and>
                 NumUnavailable s = of_nat (length (cells h (InUseIPAddresses subnet)))))"
proof -
  have "fst (subnetReservedIPRanges h subnet) = fst (subnetReservedIPRanges h' subnet)"
    by (simp add: reserved_run [OF assms(1)] reserved_run [OF assms(2)] assms(3)
          sort_key_UInt64 sort_remdups reserved_after_sort_remdups_adj)
  moreover have "prefix_len (CIDR subnet) \<le> 32 \<longrightarrow>
            (\<exists>s. fst (subnetStatistics h subnet includeRanges) = Inr s \<and>
                 NumUnavailable s = of_nat (length (cells h (InUseIPAddresses subnet))))"
  proof
    assume p: "prefix_len (CIDR subnet) \<le> 32"
    obtain rs h1 where u: "subnetUnreservedIPRanges h subnet = (Inr rs, h1)"
      using unreserved_returns [OF p] by blast
    show "\<exists>s. fst (subnetStatistics h subnet includeRanges) = Inr s \<and>
                 NumUnavailable s = of_nat (length (cells h (InUseIPAddresses subnet)))"
      using p u by (simp add: subnetStatistics_def ParseCIDR_def Let_def)
  qed
  ultimately show ?thesis ..
qed

theorem duplicates_keep_reserved_ranges_witness:
  "fst (subnetReservedIPRanges (caller_store [ipv4 10 0 0 9, ipv4 10 0 0 3, ipv4 10 0 0 9, ipv4 10 0 0 4])
          (subnet_of (ipv4 10 0 0 0) 28)) =
   fst (subnetReservedIPRanges (caller_store [ipv4 10 0 0 3, ipv4 10 0 0 9, ipv4 10 0 0 4])
          (subnet_of (ipv4 10 0 0 0) 28)) \<and>
   fst (subnetReservedIPRanges (caller_store [ipv4 10 0 0 3, ipv4 10 0 0 9, ipv4 10 0 0 4])
          (subnet_of (ipv4 10 0 0 0) 28)) =
     Inr [\<lparr>Start = ''10.0.0.3'', startUint = 167772163, End = ''10.0.0.4'',
            endUint = 167772164, Purpose = [], NumAddresses = 2\<rparr>,
          \<lparr>Start = ''10.0.0.9'', startUint = 167772169, End = ''10.0.0.9'',
            endUint = 167772169, Purpose = [], NumAddresses = 1\<rparr>] \<and>
   (\<exists>s. fst (subnetStatistics (caller_store [ipv4 10 0 0 9, ipv4 10 0 0 3, ipv4 10 0 0 9, ipv4 10 0 0 4])
              (subnet_of (ipv4 10 0 0 0) 28) False) = Inr s \<and> NumUnavailable s = 4)"
proof -
  have r: "fst (subnetReservedIPRanges (caller_store [ipv4 10 0 0 3, ipv4 10 0 0 9, ipv4 10 0 0 4])
          (subnet_of (ipv4 10 0 0 0) 28)) =
     Inr [\<lparr>Start = ''10.0.0.3'', startUint = 167772163, End = ''10.0.0.4'',
            endUint = 167772164, Purpose = [], NumAddresses = 2\<rparr>,
          \<lparr>Start = ''10.0.0.9'', startUint = 167772169, End = ''10.0.0.9'',
            endUint = 167772169, Purpose = [], NumAddresses = 1\<rparr>]"
    by (simp add: run_defs)
  have d: "cells (caller_store [ipv4 10 0 0 3, ipv4 10 0 0 9, ipv4 10 0 0 4]) (InUseIPAddresses (subnet_of (ipv4 10 0 0 0) 28)) =
     remdups (cells (caller_store [ipv4 10 0 0 9, ipv4 10 0 0 3, ipv4 10 0 0 9, ipv4 10 0 0 4]) (InUseIPAddresses (subnet_of (ipv4 10 0 0 0) 28)))"
    by (simp add: caller_store_def subnet_of_def ipv4_def)
  show ?thesis
    using duplicates_keep_reserved_ranges [of "subnet_of (ipv4 10 0 0 0) 28"
        "caller_store [ipv4 10 0 0 9, ipv4 10 0 0 3, ipv4 10 0 0 9, ipv4 10 0 0 4]"
        "caller_store [ipv4 10 0 0 3, ipv4 10 0 0 9, ipv4 10 0 0 4]" False, OF _ _ d] r
    by (simp add: caller_store_def subnet_of_def)
qed

end
